theory Spec2Isabelle
  imports Main "HOL-Library.Sublist"
begin

section \<open>Data model\<close>

text \<open>
  \<^verbatim>\<open>CapturedMessage\<close> is the dataclass of the messaging module: a byte payload and
  a dictionary of string attributes. Python's \<^verbatim>\<open>dict[str, str]\<close> is a partial map.
\<close>

type_synonym bytes = string

record CapturedMessage =
  data :: bytes
  attributes :: "string \<rightharpoonup> string"

text \<open>
  Every exception the modelled code can raise. \<open>UsageError\<close> is the failure the
  specification demands for a message that lacks the dedup attribute;
  \<open>ModuleNotFoundError\<close> is what \<^verbatim>\<open>importlib.import_module\<close> raises for an unknown
  name; \<open>AssertionError\<close> is a failed \<^verbatim>\<open>assert\<close>; \<open>AttributeError\<close> is
  a read of a module attribute that does not exist; \<open>StopConsumer\<close> is the
  exception class of that name with its \<^verbatim>\<open>ack\<close> field; \<open>OtherError\<close> stands
  for any exception of the caller's own.
\<close>

datatype error =
    UsageError string
  | ModuleNotFoundError string
  | AssertionError
  | AttributeError string
  | StopConsumer bool
  | OtherError string

text \<open>
  A \<^verbatim>\<open>Cache\<close> object is constructed from an optional topic
  (\<^verbatim>\<open>__init__(self, topic: Optional[str] = None)\<close>); it is a handle on the store of
  that topic.
\<close>

record Cache =
  cache_topic :: "string option"

text \<open>
  The mutable state of the process: the class-level list
  \<^verbatim>\<open>CapturingPublisher.messages\<close>, bound once in the class body and shared by every
  instance, and the dedup stores, one set of seen fingerprints per topic.
\<close>

record world =
  CapturingPublisher_messages :: "CapturedMessage list"
  seen :: "string option \<Rightarrow> string set"

section \<open>Dedup cache\<close>

text \<open>
  Modelled from the spec: the three operations of \<^verbatim>\<open>Cache\<close> are abstract methods in
  the messaging module and their implementation is not among the sources. The
  specification (section 4.1) gives the contract: \<^verbatim>\<open>without_duplicates\<close> walks the
  messages in order, takes the value of \<^verbatim>\<open>attributes[attribute]\<close> as fingerprint,
  keeps the message and marks the fingerprint when it is not yet marked in the
  topic's store, drops the message otherwise, and fails at once on a message
  without the attribute. The model covers one retention window: no fingerprint
  is evicted between two operations.
\<close>

fun without_duplicates_loop ::
  "string \<Rightarrow> CapturedMessage list \<Rightarrow> string set \<Rightarrow> error + (CapturedMessage list \<times> string set)" where
  "without_duplicates_loop A [] S = Inr ([], S)"
| "without_duplicates_loop A (m # ms) S =
     (case attributes m A of
        None \<Rightarrow> Inl (UsageError A)
      | Some k \<Rightarrow>
          if k \<in> S then without_duplicates_loop A ms S
          else (case without_duplicates_loop A ms (insert k S) of
                  Inl e \<Rightarrow> Inl e
                | Inr (kept, S') \<Rightarrow> Inr (m # kept, S')))"

definition without_duplicates ::
  "Cache \<Rightarrow> string \<Rightarrow> CapturedMessage list \<Rightarrow> world \<Rightarrow> error + (CapturedMessage list \<times> world)" where
  "without_duplicates c A ms w =
     (case without_duplicates_loop A ms (seen w (cache_topic c)) of
        Inl e \<Rightarrow> Inl e
      | Inr (kept, S') \<Rightarrow> Inr (kept, w\<lparr>seen := (seen w)(cache_topic c := S')\<rparr>))"

text \<open>
  Modelled from the spec: \<^verbatim>\<open>forget_duplicates\<close> unmarks the fingerprint of each
  message; a message without the attribute is the same usage error (section 7).
\<close>

fun forget_duplicates_loop ::
  "string \<Rightarrow> CapturedMessage list \<Rightarrow> string set \<Rightarrow> error + string set" where
  "forget_duplicates_loop A [] S = Inr S"
| "forget_duplicates_loop A (m # ms) S =
     (case attributes m A of
        None \<Rightarrow> Inl (UsageError A)
      | Some k \<Rightarrow> forget_duplicates_loop A ms (S - {k}))"

definition forget_duplicates ::
  "Cache \<Rightarrow> string \<Rightarrow> CapturedMessage list \<Rightarrow> world \<Rightarrow> error + world" where
  "forget_duplicates c A ms w =
     (case forget_duplicates_loop A ms (seen w (cache_topic c)) of
        Inl e \<Rightarrow> Inl e
      | Inr S' \<Rightarrow> Inr (w\<lparr>seen := (seen w)(cache_topic c := S')\<rparr>))"

text \<open>
  Modelled from the spec: \<^verbatim>\<open>clear_recently_seen_messages\<close> resets all seen-state
  of the topic.
\<close>

definition clear_recently_seen_messages :: "Cache \<Rightarrow> world \<Rightarrow> world" where
  "clear_recently_seen_messages c w = w\<lparr>seen := (seen w)(cache_topic c := {})\<rparr>"

text \<open>The fingerprint of a message that carries the attribute.\<close>

definition fingerprint :: "string \<Rightarrow> CapturedMessage \<Rightarrow> string" where
  "fingerprint A m = the (attributes m A)"

text \<open>
  Consecutive calls of \<^verbatim>\<open>without_duplicates\<close> on one cache, one batch per call;
  the result lists what each call returned.
\<close>

fun without_duplicates_calls ::
  "Cache \<Rightarrow> string \<Rightarrow> CapturedMessage list list \<Rightarrow> world \<Rightarrow> error + (CapturedMessage list list \<times> world)" where
  "without_duplicates_calls c A [] w = Inr ([], w)"
| "without_duplicates_calls c A (ms # batches) w =
     (case without_duplicates c A ms w of
        Inl e \<Rightarrow> Inl e
      | Inr (kept, w') \<Rightarrow>
          (case without_duplicates_calls c A batches w' of
             Inl e \<Rightarrow> Inl e
           | Inr (rest, w'') \<Rightarrow> Inr (kept # rest, w'')))"

section \<open>The capturing publisher\<close>

text \<open>
  \<^verbatim>\<open>CapturingPublisher.__init__\<close> binds three instance attributes: the topic, the
  cache and the optional dedup attribute. It binds no \<^verbatim>\<open>messages\<close>, so
  \<^verbatim>\<open>self.messages\<close> is the list of the class for every instance.
\<close>

record CapturingPublisher =
  topic :: string
  cache :: Cache
  deduplicate_by :: "string option"

definition self_messages :: "CapturingPublisher \<Rightarrow> world \<Rightarrow> CapturedMessage list" where
  "self_messages p w = CapturingPublisher_messages w"

text \<open>
  \<^verbatim>\<open>__aenter__\<close> returns \<^verbatim>\<open>self\<close>; the body of \<^verbatim>\<open>__aexit__\<close> is \<^verbatim>\<open>...\<close>: it
  returns \<^verbatim>\<open>None\<close> and changes nothing.
\<close>

definition CapturingPublisher_aenter :: "CapturingPublisher \<Rightarrow> world \<Rightarrow> CapturingPublisher \<times> world" where
  "CapturingPublisher_aenter p w = (p, w)"

definition CapturingPublisher_aexit :: "CapturingPublisher \<Rightarrow> error option \<Rightarrow> world \<Rightarrow> world" where
  "CapturingPublisher_aexit p exc w = w"

text \<open>
  \<^verbatim>\<open>publish_data\<close>. The test \<^verbatim>\<open>if self.deduplicate_by:\<close> is Python truthiness:
  \<^verbatim>\<open>None\<close> and the empty string both skip the cache. An exception of the cache
  leaves the function before \<^verbatim>\<open>extend\<close>.
\<close>

definition publish_data ::
  "CapturingPublisher \<Rightarrow> bytes \<Rightarrow> (string \<rightharpoonup> string) \<Rightarrow> world \<Rightarrow> error + world" where
  "publish_data p d a w =
     (let to_publish = [\<lparr>data = d, attributes = a\<rparr>];
          filtered =
            (case deduplicate_by p of
               None \<Rightarrow> Inr (to_publish, w)
             | Some A \<Rightarrow>
                 if A \<noteq> [] then without_duplicates (cache p) A to_publish w
                 else Inr (to_publish, w))
      in case filtered of
           Inl e \<Rightarrow> Inl e
         | Inr (to_publish', w') \<Rightarrow>
             Inr (w'\<lparr>CapturingPublisher_messages := CapturingPublisher_messages w' @ to_publish'\<rparr>))"

text \<open>
  A caller's use of one publisher: a sequence of method calls, executed in
  order; the first exception ends it.
\<close>

datatype publisher_call =
    Call_aenter
  | Call_aexit
  | Call_publish_data bytes "string \<rightharpoonup> string"

fun calls :: "CapturingPublisher \<Rightarrow> publisher_call list \<Rightarrow> world \<Rightarrow> error + world" where
  "calls p [] w = Inr w"
| "calls p (Call_aenter # cs) w = calls (fst (CapturingPublisher_aenter p w)) cs (snd (CapturingPublisher_aenter p w))"
| "calls p (Call_aexit # cs) w = calls p cs (CapturingPublisher_aexit p None w)"
| "calls p (Call_publish_data d a # cs) w =
     (case publish_data p d a w of Inl e \<Rightarrow> Inl e | Inr w' \<Rightarrow> calls p cs w')"

fun is_publish :: "publisher_call \<Rightarrow> bool" where
  "is_publish (Call_publish_data d a) = True"
| "is_publish _ = False"

section \<open>Backend resolver\<close>

text \<open>Values of keyword arguments (\<^verbatim>\<open>Any\<close> in the source).\<close>

datatype py_value = PyNone | PyBool bool | PyInt int | PyStr string

type_synonym kwargs = "string \<rightharpoonup> py_value"

text \<open>How \<^verbatim>\<open>create_consumer\<close> calls the consumer class: with the topic as the one
  positional argument, or with keyword arguments only.\<close>

datatype consumer_args = Positional string | Keywords kwargs

text \<open>
  The broker's side of subscriptions: the bindings that exist, each a topic with
  a unique number, and the next free number.
\<close>

record broker =
  bindings :: "(string \<times> nat) set"
  next_binding :: nat

text \<open>
  An asynchronous context manager over the broker. Entering either raises or
  gives the value bound by \<^verbatim>\<open>as\<close> together with the exit to run later, which
  receives the exception of the body, if any, and answers whether it suppresses
  it (the truth value of what \<^verbatim>\<open>__aexit__\<close> returns).
\<close>

type_synonym scope_exit = "error option \<Rightarrow> broker \<Rightarrow> (error + bool) \<times> broker"

type_synonym 'v scoped = "broker \<Rightarrow> (error + ('v \<times> scope_exit)) \<times> broker"

text \<open>
  A Python module as the resolver sees it: the five attributes the two
  \<^verbatim>\<open>runtime_checkable\<close> protocols name, each present or not.
\<close>

record ('pub, 'con) py_module =
  mod_Cache :: "(string \<Rightarrow> Cache) option"
  mod_Publisher :: "(string \<Rightarrow> Cache \<Rightarrow> string option \<Rightarrow> 'pub) option"
  mod_Consumer :: "(consumer_args \<Rightarrow> 'con) option"
  mod_ephemeral_subscription :: "(string \<Rightarrow> kwargs scoped) option"
  mod_break_topic :: "unit scoped option"

text \<open>The two settings and the modules that can be imported.\<close>

record ('pub, 'con) env =
  PREFECT_MESSAGING_CACHE :: string
  PREFECT_MESSAGING_BROKER :: string
  modules :: "string \<rightharpoonup> ('pub, 'con) py_module"

definition import_module :: "('pub, 'con) env \<Rightarrow> string \<Rightarrow> error + ('pub, 'con) py_module" where
  "import_module E name =
     (case modules E name of None \<Rightarrow> Inl (ModuleNotFoundError name) | Some m \<Rightarrow> Inr m)"

text \<open>
  \<^verbatim>\<open>isinstance\<close> against a \<^verbatim>\<open>runtime_checkable\<close> protocol whose members are all
  data attributes tests that each of them is present.
\<close>

definition isinstance_CacheModule :: "('pub, 'con) py_module \<Rightarrow> bool" where
  "isinstance_CacheModule m = (mod_Cache m \<noteq> None)"

definition isinstance_BrokerModule :: "('pub, 'con) py_module \<Rightarrow> bool" where
  "isinstance_BrokerModule m =
     (mod_Publisher m \<noteq> None \<and> mod_Consumer m \<noteq> None
      \<and> mod_ephemeral_subscription m \<noteq> None \<and> mod_break_topic m \<noteq> None)"

text \<open>
  \<^verbatim>\<open>create_cache\<close>. The \<^verbatim>\<open>assert\<close> statements are modelled as the interpreter
  runs them by default: a false condition raises \<^verbatim>\<open>AssertionError\<close>.
\<close>

definition create_cache :: "('pub, 'con) env \<Rightarrow> string \<Rightarrow> error + Cache" where
  "create_cache E t =
     (case import_module E (PREFECT_MESSAGING_CACHE E) of
        Inl e \<Rightarrow> Inl e
      | Inr m \<Rightarrow>
          if \<not> isinstance_CacheModule m then Inl AssertionError
          else (case mod_Cache m of
                  None \<Rightarrow> Inl (AttributeError ''Cache'')
                | Some C \<Rightarrow> Inr (C t)))"

text \<open>
  The expression \<^verbatim>\<open>cache or create_cache()\<close>: a cache object is truthy, and the
  call passes no topic, so the parameter takes its default \<^verbatim>\<open>"default"\<close>.
\<close>

definition cache_or_create_cache :: "('pub, 'con) env \<Rightarrow> Cache option \<Rightarrow> error + Cache" where
  "cache_or_create_cache E c =
     (case c of Some c' \<Rightarrow> Inr c' | None \<Rightarrow> create_cache E ''default'')"

definition CapturingPublisher_init ::
  "('pub, 'con) env \<Rightarrow> string \<Rightarrow> Cache option \<Rightarrow> string option \<Rightarrow> error + CapturingPublisher" where
  "CapturingPublisher_init E t c dedup =
     (case cache_or_create_cache E c of
        Inl e \<Rightarrow> Inl e
      | Inr c' \<Rightarrow> Inr \<lparr>topic = t, cache = c', deduplicate_by = dedup\<rparr>)"

definition create_publisher ::
  "('pub, 'con) env \<Rightarrow> string \<Rightarrow> Cache option \<Rightarrow> string option \<Rightarrow> error + 'pub" where
  "create_publisher E t c dedup =
     (case cache_or_create_cache E c of
        Inl e \<Rightarrow> Inl e
      | Inr c' \<Rightarrow>
          (case import_module E (PREFECT_MESSAGING_BROKER E) of
             Inl e \<Rightarrow> Inl e
           | Inr m \<Rightarrow>
               if \<not> isinstance_BrokerModule m then Inl AssertionError
               else (case mod_Publisher m of
                       None \<Rightarrow> Inl (AttributeError ''Publisher'')
                     | Some P \<Rightarrow> Inr (P t c' dedup))))"

text \<open>\<^verbatim>\<open>kwargs.pop(key, default)\<close>, for its value.\<close>

definition pop_or :: "kwargs \<Rightarrow> string \<Rightarrow> py_value \<Rightarrow> py_value" where
  "pop_or kw key dflt = (case kw key of None \<Rightarrow> dflt | Some v \<Rightarrow> v)"

definition create_consumer :: "('pub, 'con) env \<Rightarrow> string \<Rightarrow> kwargs \<Rightarrow> error + 'con" where
  "create_consumer E t kw =
     (case import_module E (PREFECT_MESSAGING_BROKER E) of
        Inl e \<Rightarrow> Inl e
      | Inr m \<Rightarrow>
          if \<not> isinstance_BrokerModule m then Inl AssertionError
          else (case mod_Consumer m of
                  None \<Rightarrow> Inl (AttributeError ''Consumer'')
                | Some C \<Rightarrow>
                    if PREFECT_MESSAGING_BROKER E = ''prefect_redis.messaging'' then
                      (let redis_kwargs =
                             [''name'' \<mapsto> pop_or kw ''name'' (PyStr t),
                              ''stream'' \<mapsto> pop_or kw ''stream'' (PyStr t),
                              ''group'' \<mapsto> pop_or kw ''group'' (PyStr t)];
                           redis_kwargs' =
                             (case kw ''should_process_pending_messages'' of
                                None \<Rightarrow> redis_kwargs
                              | Some v \<Rightarrow> redis_kwargs(''should_process_pending_messages'' \<mapsto> v))
                       in Inr (C (Keywords redis_kwargs')))
                    else Inr (C (Positional t))))"

section \<open>Ephemeral subscription\<close>

text \<open>
  The statement \<^verbatim>\<open>async with cm as v: body\<close>. The body runs only when entering
  succeeded; the exit runs on both ways out of the body, with the body's
  exception when there is one. The statement gives \<open>Inr None\<close> when the exit
  suppressed an exception of the body.
\<close>

definition async_with ::
  "'v scoped \<Rightarrow> ('v \<Rightarrow> broker \<Rightarrow> (error + 'r) \<times> broker) \<Rightarrow> broker \<Rightarrow> (error + 'r option) \<times> broker" where
  "async_with cm body s =
     (case cm s of
        (Inl e, s1) \<Rightarrow> (Inl e, s1)
      | (Inr (v, ex), s1) \<Rightarrow>
          (case body v s1 of
             (Inr r, s2) \<Rightarrow>
               (case ex None s2 of
                  (Inl e', s3) \<Rightarrow> (Inl e', s3)
                | (Inr b, s3) \<Rightarrow> (Inr (Some r), s3))
           | (Inl e, s2) \<Rightarrow>
               (case ex (Some e) s2 of
                  (Inl e', s3) \<Rightarrow> (Inl e', s3)
                | (Inr suppress, s3) \<Rightarrow> (if suppress then Inr None else Inl e, s3))))"

text \<open>
  \<^verbatim>\<open>ephemeral_subscription\<close>, a generator under \<^verbatim>\<open>asynccontextmanager\<close>. Entering
  runs the generator to its \<^verbatim>\<open>yield\<close>: it resolves the broker module, asserts
  its shape and enters the module's own context manager. Leaving resumes the
  generator at the \<^verbatim>\<open>yield\<close>, inside the inner \<^verbatim>\<open>async with\<close>, normally or with the
  exception of the body thrown in: the inner exit runs, and the exception is
  suppressed only when the inner exit suppresses it.
\<close>

definition ephemeral_subscription :: "('pub, 'con) env \<Rightarrow> string \<Rightarrow> kwargs scoped" where
  "ephemeral_subscription E t s =
     (case import_module E (PREFECT_MESSAGING_BROKER E) of
        Inl e \<Rightarrow> (Inl e, s)
      | Inr m \<Rightarrow>
          if \<not> isinstance_BrokerModule m then (Inl AssertionError, s)
          else (case mod_ephemeral_subscription m of
                  None \<Rightarrow> (Inl (AttributeError ''ephemeral_subscription''), s)
                | Some inner \<Rightarrow>
                    (case inner t s of
                       (Inl e, s1) \<Rightarrow> (Inl e, s1)
                     | (Inr (consumer_create_kwargs, inner_exit), s1) \<Rightarrow>
                         (Inr (consumer_create_kwargs,
                               \<lambda>exc s2. case inner_exit exc s2 of
                                          (Inl e', s3) \<Rightarrow> (Inl e', s3)
                                        | (Inr b, s3) \<Rightarrow> (Inr (exc \<noteq> None \<and> b), s3)),
                          s1))))"

text \<open>
  Modelled from the spec: the broker's own \<^verbatim>\<open>ephemeral_subscription\<close> is not among
  the sources. By section 4.5 it creates on entry a temporary, uniquely named
  binding on the topic and yields the parameters a consumer needs to attach to
  it; on exit, normal or not, it deletes that binding (and lets an exception of
  the body pass).
\<close>

definition backend_ephemeral_subscription :: "string \<Rightarrow> kwargs scoped" where
  "backend_ephemeral_subscription t s =
     (let n = next_binding s in
      (Inr ([''topic'' \<mapsto> PyStr t, ''subscription'' \<mapsto> PyInt (int n)],
            \<lambda>exc s'. (Inr False, s'\<lparr>bindings := bindings s' - {(t, n)}\<rparr>)),
       s\<lparr>bindings := insert (t, n) (bindings s), next_binding := Suc n\<rparr>))"

section \<open>Consumer\<close>

text \<open>
  Modelled from the spec: \<^verbatim>\<open>Consumer.run\<close> is an abstract method and no
  implementation is among the sources. Section 4.3 gives the loop: pull the next
  message, call the handler; acknowledge after a normal return and go on; on
  \<^verbatim>\<open>StopConsumer\<close> acknowledge the message if its \<^verbatim>\<open>ack\<close> is true, leave it
  unacknowledged otherwise, and return normally; let any other exception out.
  The backend delivers the messages \<open>src 0\<close>, \<open>src 1\<close>, ...; the handler is a
  function of the message and of its own state. The loop need not end, so its
  value is an option: \<open>None\<close> when it runs forever.
\<close>

datatype consumer_state = RUNNING | STOPPING | STOPPED

record 'm consumer =
  state :: consumer_state
  acked :: "'m list"
  unacked :: "'m list"

type_synonym ('m, 'h) handler = "'m \<Rightarrow> 'h \<Rightarrow> (error + unit) \<times> 'h"

partial_function (option) run_loop ::
  "('m, 'h) handler \<Rightarrow> (nat \<Rightarrow> 'm) \<Rightarrow> nat \<Rightarrow> 'h \<Rightarrow> 'm consumer
   \<Rightarrow> ((error + unit) \<times> 'h \<times> 'm consumer) option" where
  "run_loop handler src i h c =
     (case handler (src i) h of
        (Inr u, h') \<Rightarrow> run_loop handler src (Suc i) h' (c\<lparr>acked := acked c @ [src i]\<rparr>)
      | (Inl e, h') \<Rightarrow>
          (case e of
             StopConsumer ack \<Rightarrow>
               (let c1 = c\<lparr>state := STOPPING\<rparr>;
                    c2 = (if ack then c1\<lparr>acked := acked c1 @ [src i]\<rparr>
                          else c1\<lparr>unacked := unacked c1 @ [src i]\<rparr>)
                in Some (Inr (), h', c2\<lparr>state := STOPPED\<rparr>))
           | _ \<Rightarrow> Some (Inl e, h', c\<lparr>unacked := unacked c @ [src i]\<rparr>)))"

definition run ::
  "('m, 'h) handler \<Rightarrow> (nat \<Rightarrow> 'm) \<Rightarrow> 'h \<Rightarrow> 'm consumer
   \<Rightarrow> ((error + unit) \<times> 'h \<times> 'm consumer) option" where
  "run handler src h c = run_loop handler src 0 h (c\<lparr>state := RUNNING\<rparr>)"

section \<open>Scenarios\<close>

text \<open>What a call returned, when it returned.\<close>

definition returned :: "error + ('a \<times> 's) \<Rightarrow> 'a option" where
  "returned r = (case r of Inl e \<Rightarrow> None | Inr (x, s) \<Rightarrow> Some x)"

text \<open>The content of the shared list after a call, when the call returned.\<close>

definition delivered :: "error + world \<Rightarrow> CapturedMessage list option" where
  "delivered r = (case r of Inl e \<Rightarrow> None | Inr w \<Rightarrow> Some (CapturingPublisher_messages w))"

text \<open>
  \<^verbatim>\<open>forget_duplicates\<close> followed immediately by \<^verbatim>\<open>without_duplicates\<close> on the same
  messages.
\<close>

definition forget_then_without ::
  "Cache \<Rightarrow> string \<Rightarrow> CapturedMessage list \<Rightarrow> world \<Rightarrow> error + (CapturedMessage list \<times> world)" where
  "forget_then_without c A ms w =
     (case forget_duplicates c A ms w of
        Inl e \<Rightarrow> Inl e
      | Inr w1 \<Rightarrow> without_duplicates c A ms w1)"

text \<open>
  \<^verbatim>\<open>without_duplicates\<close>, then \<^verbatim>\<open>clear_recently_seen_messages\<close>, then
  \<^verbatim>\<open>without_duplicates\<close> again on the same messages; the result holds what the
  two calls returned.
\<close>

definition filter_clear_filter ::
  "Cache \<Rightarrow> string \<Rightarrow> CapturedMessage list \<Rightarrow> world
   \<Rightarrow> error + ((CapturedMessage list \<times> CapturedMessage list) \<times> world)" where
  "filter_clear_filter c A ms w =
     (case without_duplicates c A ms w of
        Inl e \<Rightarrow> Inl e
      | Inr (first, w1) \<Rightarrow>
          (case without_duplicates c A ms (clear_recently_seen_messages c w1) of
             Inl e \<Rightarrow> Inl e
           | Inr (second, w2) \<Rightarrow> Inr ((first, second), w2)))"

text \<open>One publisher's \<^verbatim>\<open>publish_data\<close>, then another's.\<close>

definition publish_then_publish ::
  "CapturingPublisher \<Rightarrow> bytes \<Rightarrow> (string \<rightharpoonup> string)
   \<Rightarrow> CapturingPublisher \<Rightarrow> bytes \<Rightarrow> (string \<rightharpoonup> string) \<Rightarrow> world \<Rightarrow> error + world" where
  "publish_then_publish p1 d1 a1 p2 d2 a2 w =
     (case publish_data p1 d1 a1 w of
        Inl e \<Rightarrow> Inl e
      | Inr w1 \<Rightarrow> publish_data p2 d2 a2 w1)"

text \<open>
  The handler returns normally at the deliveries \<open>i\<close>, ..., \<open>i + n - 1\<close> and raises
  \<^verbatim>\<open>StopConsumer(ack)\<close> at the delivery \<open>i + n\<close>.
\<close>

fun stops_after ::
  "('m, 'h) handler \<Rightarrow> (nat \<Rightarrow> 'm) \<Rightarrow> nat \<Rightarrow> 'h \<Rightarrow> nat \<Rightarrow> bool \<Rightarrow> bool" where
  "stops_after handler src i h 0 ack = (fst (handler (src i) h) = Inl (StopConsumer ack))"
| "stops_after handler src i h (Suc n) ack =
     (fst (handler (src i) h) = Inr ()
      \<and> stops_after handler src (Suc i) (snd (handler (src i) h)) n ack)"

section \<open>Example values\<close>

text \<open>A cache for the topic \<open>events\<close>; a state where nothing was published or
  seen, and one where the fingerprint \<open>abc\<close> is marked for \<open>events\<close>.\<close>

definition example_cache :: Cache where
  "example_cache = \<lparr>cache_topic = Some ''events''\<rparr>"

definition empty_world :: world where
  "empty_world = \<lparr>CapturingPublisher_messages = [], seen = (\<lambda>t. {})\<rparr>"

definition seen_abc_world :: world where
  "seen_abc_world =
     \<lparr>CapturingPublisher_messages = [], seen = (\<lambda>t. {})(Some ''events'' := {''abc''})\<rparr>"

text \<open>Messages: two with \<open>id = abc\<close>, one with \<open>id = xyz\<close>, and one whose only
  attribute has the empty name.\<close>

definition msg_abc :: CapturedMessage where
  "msg_abc = \<lparr>data = ''first'', attributes = [''id'' \<mapsto> ''abc'']\<rparr>"

definition msg_abc' :: CapturedMessage where
  "msg_abc' = \<lparr>data = ''second'', attributes = [''id'' \<mapsto> ''abc'']\<rparr>"

definition msg_xyz :: CapturedMessage where
  "msg_xyz = \<lparr>data = ''third'', attributes = [''id'' \<mapsto> ''xyz'']\<rparr>"

definition msg_blank :: CapturedMessage where
  "msg_blank = \<lparr>data = ''first'', attributes = [[] \<mapsto> ''abc'']\<rparr>"

text \<open>Publishers: one that deduplicates by \<open>id\<close>, one constructed with
  \<^verbatim>\<open>deduplicate_by=""\<close>, one without dedup attribute on another topic.\<close>

definition dedup_publisher :: CapturingPublisher where
  "dedup_publisher = \<lparr>topic = ''events'', cache = example_cache, deduplicate_by = Some ''id''\<rparr>"

definition blank_publisher :: CapturingPublisher where
  "blank_publisher = \<lparr>topic = ''events'', cache = example_cache, deduplicate_by = Some []\<rparr>"

definition other_publisher :: CapturingPublisher where
  "other_publisher = \<lparr>topic = ''audit'', cache = example_cache, deduplicate_by = None\<rparr>"

text \<open>
  Modules. The publisher and consumer classes of the examples return the
  arguments they were constructed with. \<open>memory_module\<close> has all five
  attributes; \<open>partial_module\<close> has neither \<^verbatim>\<open>Cache\<close> nor \<^verbatim>\<open>break_topic\<close>.
\<close>

type_synonym example_module = "(string \<times> Cache \<times> string option, consumer_args) py_module"

definition memory_module :: example_module where
  "memory_module =
     \<lparr>mod_Cache = Some (\<lambda>t. \<lparr>cache_topic = Some t\<rparr>),
      mod_Publisher = Some (\<lambda>t c dedup. (t, c, dedup)),
      mod_Consumer = Some (\<lambda>args. args),
      mod_ephemeral_subscription = Some backend_ephemeral_subscription,
      mod_break_topic = Some (\<lambda>s. (Inr ((), \<lambda>exc s'. (Inr False, s')), s))\<rparr>"

definition partial_module :: example_module where
  "partial_module = memory_module\<lparr>mod_Cache := None, mod_break_topic := None\<rparr>"

definition memory_env :: "(string \<times> Cache \<times> string option, consumer_args) env" where
  "memory_env =
     \<lparr>PREFECT_MESSAGING_CACHE = ''messaging.memory'',
      PREFECT_MESSAGING_BROKER = ''messaging.memory'',
      modules = [''messaging.memory'' \<mapsto> memory_module]\<rparr>"

definition partial_env :: "(string \<times> Cache \<times> string option, consumer_args) env" where
  "partial_env =
     \<lparr>PREFECT_MESSAGING_CACHE = ''messaging.partial'',
      PREFECT_MESSAGING_BROKER = ''messaging.partial'',
      modules = [''messaging.partial'' \<mapsto> partial_module]\<rparr>"

text \<open>A broker without bindings, and a scope body that raises.\<close>

definition empty_broker :: broker where
  "empty_broker = \<lparr>bindings = {}, next_binding = 0\<rparr>"

definition raising_body :: "kwargs \<Rightarrow> broker \<Rightarrow> (error + unit) \<times> broker" where
  "raising_body kw s = (Inl (OtherError ''boom''), s)"

text \<open>Handlers over numbered messages that stop at message 2, with the given
  \<open>ack\<close>; the handler's state counts its calls. A consumer that has not run.\<close>

definition stop_at_two :: "bool \<Rightarrow> (nat, nat) handler" where
  "stop_at_two ack m h = (if m = 2 then (Inl (StopConsumer ack), Suc h) else (Inr (), Suc h))"

definition fresh_consumer :: "nat consumer" where
  "fresh_consumer = \<lparr>state = STOPPED, acked = [], unacked = []\<rparr>"

section \<open>Properties of the dedup cache\<close>

lemma without_duplicates_loop_total:
  "\<forall>m\<in>set ms. attributes m A \<noteq> None \<Longrightarrow>
   \<exists>kept S'. without_duplicates_loop A ms S = Inr (kept, S')"
proof (induction ms arbitrary: S)
  case Nil
  show ?case by simp
next
  case (Cons m ms)
  from Cons.prems obtain k where k: "attributes m A = Some k" by auto
  from Cons.prems have rest: "\<forall>m\<in>set ms. attributes m A \<noteq> None" by simp
  show ?case
  proof (cases "k \<in> S")
    case True
    with k Cons.IH [OF rest, of S] show ?thesis by simp
  next
    case False
    from Cons.IH [OF rest, of "insert k S"] obtain kept S'
      where "without_duplicates_loop A ms (insert k S) = Inr (kept, S')" by blast
    with k False show ?thesis by simp
  qed
qed

lemma without_duplicates_loop_props:
  "without_duplicates_loop A ms S = Inr (kept, S') \<Longrightarrow>
   subseq kept ms \<and> distinct (map (fingerprint A) kept)
   \<and> fingerprint A ` set kept \<inter> S = {}
   \<and> S' = S \<union> fingerprint A ` set ms
   \<and> S' = S \<union> fingerprint A ` set kept"
proof (induction ms arbitrary: S kept S')
  case Nil
  then show ?case by simp
next
  case (Cons m ms)
  from Cons.prems obtain k where k: "attributes m A = Some k"
    by (cases "attributes m A") auto
  then have fk: "fingerprint A m = k" by (simp add: fingerprint_def)
  show ?case
  proof (cases "k \<in> S")
    case True
    with k Cons.prems have "without_duplicates_loop A ms S = Inr (kept, S')" by simp
    from Cons.IH [OF this] True fk show ?thesis by auto
  next
    case False
    with k Cons.prems obtain kept0
      where run: "without_duplicates_loop A ms (insert k S) = Inr (kept0, S')"
        and kept: "kept = m # kept0"
      by (auto split: sum.splits)
    from Cons.IH [OF run] False fk kept show ?thesis by auto
  qed
qed

lemma without_duplicates_props:
  assumes "\<forall>m\<in>set ms. attributes m A \<noteq> None"
  shows "\<exists>kept w'. without_duplicates c A ms w = Inr (kept, w')
     \<and> subseq kept ms \<and> distinct (map (fingerprint A) kept)
     \<and> fingerprint A ` set kept \<inter> seen w (cache_topic c) = {}
     \<and> seen w' (cache_topic c) = seen w (cache_topic c) \<union> fingerprint A ` set kept
     \<and> w' = w\<lparr>seen := (seen w)(cache_topic c := seen w (cache_topic c) \<union> fingerprint A ` set ms)\<rparr>"
proof -
  from without_duplicates_loop_total [OF assms, of "seen w (cache_topic c)"]
  obtain kept S' where run: "without_duplicates_loop A ms (seen w (cache_topic c)) = Inr (kept, S')"
    by blast
  note P = without_duplicates_loop_props [OF run]
  have "without_duplicates c A ms w = Inr (kept, w\<lparr>seen := (seen w)(cache_topic c := S')\<rparr>)"
    by (simp add: without_duplicates_def run)
  with P show ?thesis by auto
qed

lemma without_duplicates_calls_props:
  assumes "\<forall>ms\<in>set batches. \<forall>m\<in>set ms. attributes m A \<noteq> None"
  shows "\<exists>outs w'. without_duplicates_calls c A batches w = Inr (outs, w')
     \<and> list_all2 subseq outs batches
     \<and> distinct (map (fingerprint A) (concat outs))
     \<and> fingerprint A ` set (concat outs) \<inter> seen w (cache_topic c) = {}"
  using assms
proof (induction batches arbitrary: w)
  case Nil
  show ?case by simp
next
  case (Cons ms batches)
  from Cons.prems have hd: "\<forall>m\<in>set ms. attributes m A \<noteq> None"
    and tl: "\<forall>ms\<in>set batches. \<forall>m\<in>set ms. attributes m A \<noteq> None" by simp_all
  from without_duplicates_props [OF hd, of c w] obtain kept w1
    where first: "without_duplicates c A ms w = Inr (kept, w1)"
      and sub: "subseq kept ms"
      and dist: "distinct (map (fingerprint A) kept)"
      and fresh: "fingerprint A ` set kept \<inter> seen w (cache_topic c) = {}"
      and seen1: "seen w1 (cache_topic c) = seen w (cache_topic c) \<union> fingerprint A ` set kept"
    by blast
  from Cons.IH [OF tl, of w1] obtain outs w2
    where rest: "without_duplicates_calls c A batches w1 = Inr (outs, w2)"
      and subs: "list_all2 subseq outs batches"
      and dists: "distinct (map (fingerprint A) (concat outs))"
      and freshs: "fingerprint A ` set (concat outs) \<inter> seen w1 (cache_topic c) = {}"
    by blast
  have run: "without_duplicates_calls c A (ms # batches) w = Inr (kept # outs, w2)"
    by (simp add: first rest)
  have disj: "fingerprint A ` set kept \<inter> fingerprint A ` set (concat outs) = {}"
    using freshs unfolding seen1 by blast
  have d: "distinct (map (fingerprint A) (concat (kept # outs)))"
    using dist dists disj by (simp add: image_Un)
  have "fingerprint A ` set (concat outs) \<inter> seen w (cache_topic c) = {}"
    using freshs unfolding seen1 by blast
  with fresh have f: "fingerprint A ` set (concat (kept # outs)) \<inter> seen w (cache_topic c) = {}"
    by (simp add: image_Un Int_Un_distrib2)
  from run sub subs d f show ?case by simp
qed


lemma without_duplicates_loop_carries:
  "without_duplicates_loop A ms S = Inr r \<Longrightarrow> \<forall>m\<in>set ms. attributes m A \<noteq> None"
proof (induction ms arbitrary: S r)
  case Nil
  show ?case by simp
next
  case (Cons m ms)
  from Cons.prems obtain k where k: "attributes m A = Some k"
    by (cases "attributes m A") auto
  show ?case
  proof (cases "k \<in> S")
    case True
    with k Cons.prems have "without_duplicates_loop A ms S = Inr r" by simp
    from Cons.IH [OF this] k show ?thesis by simp
  next
    case False
    with k Cons.prems obtain r' where "without_duplicates_loop A ms (insert k S) = Inr r'"
      by (auto split: sum.splits)
    from Cons.IH [OF this] k show ?thesis by simp
  qed
qed

lemma without_duplicates_loop_novel:
  "\<forall>m\<in>set ms. attributes m A \<noteq> None \<Longrightarrow> distinct (map (fingerprint A) ms) \<Longrightarrow>
   fingerprint A ` set ms \<inter> S = {} \<Longrightarrow>
   without_duplicates_loop A ms S = Inr (ms, S \<union> fingerprint A ` set ms)"
proof (induction ms arbitrary: S)
  case Nil
  show ?case by simp
next
  case (Cons m ms)
  from Cons.prems(1) obtain k where k: "attributes m A = Some k" by auto
  then have fk: "fingerprint A m = k" by (simp add: fingerprint_def)
  from Cons.prems(3) fk have notin: "k \<notin> S" by auto
  have c: "\<forall>m\<in>set ms. attributes m A \<noteq> None" using Cons.prems(1) by simp
  have d: "distinct (map (fingerprint A) ms)" using Cons.prems(2) by simp
  have i: "fingerprint A ` set ms \<inter> insert k S = {}"
    using Cons.prems(2,3) fk by auto
  have "without_duplicates_loop A ms (insert k S) = Inr (ms, insert k S \<union> fingerprint A ` set ms)"
    by (rule Cons.IH [OF c d i])
  with k notin fk show ?case by simp
qed

lemma forget_duplicates_loop_result:
  "\<forall>m\<in>set ms. attributes m A \<noteq> None \<Longrightarrow>
   forget_duplicates_loop A ms S = Inr (S - fingerprint A ` set ms)"
proof (induction ms arbitrary: S)
  case Nil
  show ?case by simp
next
  case (Cons m ms)
  from Cons.prems obtain k where k: "attributes m A = Some k" by auto
  then have fk: "fingerprint A m = k" by (simp add: fingerprint_def)
  have c: "\<forall>m\<in>set ms. attributes m A \<noteq> None" using Cons.prems by simp
  have "S - {k} - fingerprint A ` set ms = S - fingerprint A ` set (m # ms)"
    using fk by auto
  with Cons.IH [OF c, of "S - {k}"] k show ?case by simp
qed

text \<open>
  Claim C2. For an attribute \<open>A\<close> and messages that all carry it,
  \<^verbatim>\<open>without_duplicates\<close> returns a subsequence of its input, in the input's
  order, with pairwise distinct fingerprints; and over this call and any further
  calls on the same cache within the retention window (nothing evicted,
  forgotten or cleared in between), each fingerprint passes at most once.
\<close>

theorem without_duplicates_at_most_once:
  assumes "\<forall>m\<in>set M. attributes m A \<noteq> None"
    and "\<forall>ms\<in>set batches. \<forall>m\<in>set ms. attributes m A \<noteq> None"
  shows "\<exists>kept w1. without_duplicates c A M w = Inr (kept, w1)
     \<and> subseq kept M
     \<and> distinct (map (fingerprint A) kept)
     \<and> (\<exists>outs w2. without_duplicates_calls c A batches w1 = Inr (outs, w2)
          \<and> list_all2 subseq outs batches
          \<and> distinct (map (fingerprint A) (kept @ concat outs)))"
proof -
  from assms have all: "\<forall>ms\<in>set (M # batches). \<forall>m\<in>set ms. attributes m A \<noteq> None"
    by simp
  from without_duplicates_calls_props [OF all, of c w] obtain outs w2
    where run: "without_duplicates_calls c A (M # batches) w = Inr (outs, w2)"
      and subs: "list_all2 subseq outs (M # batches)"
      and dist: "distinct (map (fingerprint A) (concat outs))"
    by blast
  from run obtain kept w1 rest
    where first: "without_duplicates c A M w = Inr (kept, w1)"
      and more: "without_duplicates_calls c A batches w1 = Inr (rest, w2)"
      and outs: "outs = kept # rest"
    by (auto split: sum.splits)
  from subs outs have "subseq kept M" and "list_all2 subseq rest batches" by simp_all
  moreover from dist outs have "distinct (map (fingerprint A) (kept @ concat rest))" by simp
  then have "distinct (map (fingerprint A) kept)" by simp
  ultimately show ?thesis using first more dist outs by auto
qed

text \<open>An instance: three messages, two of them with the fingerprint \<open>abc\<close>,
  then two more calls.\<close>

theorem without_duplicates_at_most_once_witness:
  "returned (without_duplicates example_cache ''id'' [msg_abc, msg_xyz, msg_abc'] empty_world)
     = Some [msg_abc, msg_xyz]
   \<and> (\<exists>kept w1. without_duplicates example_cache ''id'' [msg_abc, msg_xyz, msg_abc'] empty_world = Inr (kept, w1)
     \<and> subseq kept [msg_abc, msg_xyz, msg_abc']
     \<and> distinct (map (fingerprint ''id'') kept)
     \<and> (\<exists>outs w2. without_duplicates_calls example_cache ''id'' [[msg_abc'], [msg_xyz, msg_abc]] w1 = Inr (outs, w2)
          \<and> list_all2 subseq outs [[msg_abc'], [msg_xyz, msg_abc]]
          \<and> distinct (map (fingerprint ''id'') (kept @ concat outs))))"
proof
  show "returned (without_duplicates example_cache ''id'' [msg_abc, msg_xyz, msg_abc'] empty_world)
     = Some [msg_abc, msg_xyz]"
    by (simp add: returned_def without_duplicates_def example_cache_def empty_world_def
        msg_abc_def msg_abc'_def msg_xyz_def)
next
  have "\<forall>m\<in>set [msg_abc, msg_xyz, msg_abc']. attributes m ''id'' \<noteq> None"
    by (simp add: msg_abc_def msg_abc'_def msg_xyz_def)
  moreover have "\<forall>ms\<in>set [[msg_abc'], [msg_xyz, msg_abc]]. \<forall>m\<in>set ms. attributes m ''id'' \<noteq> None"
    by (simp add: msg_abc_def msg_abc'_def msg_xyz_def)
  ultimately show "\<exists>kept w1. without_duplicates example_cache ''id'' [msg_abc, msg_xyz, msg_abc'] empty_world = Inr (kept, w1)
     \<and> subseq kept [msg_abc, msg_xyz, msg_abc']
     \<and> distinct (map (fingerprint ''id'') kept)
     \<and> (\<exists>outs w2. without_duplicates_calls example_cache ''id'' [[msg_abc'], [msg_xyz, msg_abc]] w1 = Inr (outs, w2)
          \<and> list_all2 subseq outs [[msg_abc'], [msg_xyz, msg_abc]]
          \<and> distinct (map (fingerprint ''id'') (kept @ concat outs)))"
    by (rule without_duplicates_at_most_once)
qed

text \<open>
  Claim C4 as stated fails on a list that repeats a fingerprint: after forgetting,
  the first occurrence marks the fingerprint again and the second is dropped.
\<close>

theorem forget_then_without_counterexample:
  "returned (forget_then_without example_cache ''id'' [msg_abc, msg_abc] empty_world) = Some [msg_abc]
   \<and> returned (forget_then_without example_cache ''id'' [msg_abc, msg_abc] empty_world) \<noteq> Some [msg_abc, msg_abc]"
  by (simp add: returned_def forget_then_without_def forget_duplicates_def without_duplicates_def
      example_cache_def empty_world_def msg_abc_def)

text \<open>
  Claim C4, amended. For messages that all carry \<open>A\<close> with pairwise distinct
  fingerprints, \<^verbatim>\<open>forget_duplicates\<close> followed immediately by
  \<^verbatim>\<open>without_duplicates\<close> returns all of them, whatever had been marked seen.
\<close>

theorem forget_then_without_distinct:
  assumes "\<forall>m\<in>set M. attributes m A \<noteq> None"
    and "distinct (map (fingerprint A) M)"
  shows "\<exists>w'. forget_then_without c A M w = Inr (M, w')"
proof -
  let ?S = "seen w (cache_topic c)"
  let ?w1 = "w\<lparr>seen := (seen w)(cache_topic c := ?S - fingerprint A ` set M)\<rparr>"
  have f: "forget_duplicates c A M w = Inr ?w1"
    by (simp add: forget_duplicates_def forget_duplicates_loop_result [OF assms(1)])
  have "fingerprint A ` set M \<inter> (?S - fingerprint A ` set M) = {}" by blast
  from without_duplicates_loop_novel [OF assms this]
  have "\<exists>w'. without_duplicates c A M ?w1 = Inr (M, w')"
    by (simp add: without_duplicates_def)
  with f show ?thesis by (simp add: forget_then_without_def)
qed

text \<open>An instance, in a store where the fingerprint \<open>abc\<close> is already marked.\<close>

theorem forget_then_without_distinct_witness:
  "attributes msg_abc ''id'' = Some ''abc'' \<and> attributes msg_xyz ''id'' = Some ''xyz''
   \<and> distinct (map (fingerprint ''id'') [msg_abc, msg_xyz])
   \<and> ''abc'' \<in> seen seen_abc_world (cache_topic example_cache)
   \<and> (\<exists>w'. forget_then_without example_cache ''id'' [msg_abc, msg_xyz] seen_abc_world
             = Inr ([msg_abc, msg_xyz], w'))"
proof -
  have c: "\<forall>m\<in>set [msg_abc, msg_xyz]. attributes m ''id'' \<noteq> None"
    by (simp add: msg_abc_def msg_xyz_def)
  have d: "distinct (map (fingerprint ''id'') [msg_abc, msg_xyz])"
    by (simp add: fingerprint_def msg_abc_def msg_xyz_def)
  have s: "''abc'' \<in> seen seen_abc_world (cache_topic example_cache)"
    by (simp add: seen_abc_world_def example_cache_def)
  have a: "attributes msg_abc ''id'' = Some ''abc'' \<and> attributes msg_xyz ''id'' = Some ''xyz''"
    by (simp add: msg_abc_def msg_xyz_def)
  from a d s forget_then_without_distinct [OF c d, of example_cache seen_abc_world]
  show ?thesis by blast
qed

text \<open>
  Claim C5 as stated fails on messages that share a fingerprint: both are
  filtered out while the fingerprint is marked, and after the reset the first
  one marks it again, so the second is still dropped.
\<close>

theorem clear_then_without_counterexample:
  "returned (filter_clear_filter example_cache ''id'' [msg_abc, msg_abc'] seen_abc_world)
     = Some ([], [msg_abc])
   \<and> [msg_abc] \<noteq> [msg_abc, msg_abc']"
  by (simp add: returned_def filter_clear_filter_def without_duplicates_def
      clear_recently_seen_messages_def example_cache_def seen_abc_world_def
      msg_abc_def msg_abc'_def)

text \<open>
  Claim C5, amended. For messages with pairwise distinct fingerprints that
  \<^verbatim>\<open>without_duplicates\<close> filtered out, \<^verbatim>\<open>clear_recently_seen_messages\<close> empties
  the store of the topic and the next \<^verbatim>\<open>without_duplicates\<close> returns them all.
\<close>

theorem clear_then_without_distinct:
  assumes "without_duplicates c A M w = Inr ([], w1)"
    and "distinct (map (fingerprint A) M)"
  shows "seen (clear_recently_seen_messages c w1) (cache_topic c) = {}
     \<and> (\<exists>w2. without_duplicates c A M (clear_recently_seen_messages c w1) = Inr (M, w2))
     \<and> (\<exists>w2. filter_clear_filter c A M w = Inr (([], M), w2))"
proof -
  let ?w = "clear_recently_seen_messages c w1"
  have empty: "seen ?w (cache_topic c) = {}"
    by (simp add: clear_recently_seen_messages_def)
  from assms(1) obtain r where "without_duplicates_loop A M (seen w (cache_topic c)) = Inr r"
    by (auto simp: without_duplicates_def split: sum.splits)
  then have carries: "\<forall>m\<in>set M. attributes m A \<noteq> None"
    by (rule without_duplicates_loop_carries)
  have "fingerprint A ` set M \<inter> {} = {}" by simp
  from without_duplicates_loop_novel [OF carries assms(2) this]
  have "\<exists>w2. without_duplicates c A M ?w = Inr (M, w2)"
    by (simp add: without_duplicates_def empty)
  then obtain w2 where again: "without_duplicates c A M ?w = Inr (M, w2)" ..
  with assms(1) have "filter_clear_filter c A M w = Inr (([], M), w2)"
    by (simp add: filter_clear_filter_def)
  with empty again show ?thesis by blast
qed

text \<open>An instance: one message whose fingerprint is marked.\<close>

theorem clear_then_without_distinct_witness:
  "without_duplicates example_cache ''id'' [msg_abc] seen_abc_world = Inr ([], seen_abc_world)
   \<and> distinct (map (fingerprint ''id'') [msg_abc])
   \<and> (\<exists>w2. filter_clear_filter example_cache ''id'' [msg_abc] seen_abc_world = Inr (([], [msg_abc]), w2))"
proof -
  have f: "without_duplicates example_cache ''id'' [msg_abc] seen_abc_world = Inr ([], seen_abc_world)"
    by (simp add: without_duplicates_def example_cache_def seen_abc_world_def msg_abc_def)
  have d: "distinct (map (fingerprint ''id'') [msg_abc])" by simp
  from f d clear_then_without_distinct [OF f d] show ?thesis by blast
qed

section \<open>Properties of the capturing publisher\<close>

lemma without_duplicates_single:
  "a A = Some v \<Longrightarrow>
   without_duplicates c A [\<lparr>data = d, attributes = a\<rparr>] w =
     (if v \<in> seen w (cache_topic c) then Inr ([], w\<lparr>seen := (seen w)(cache_topic c := seen w (cache_topic c))\<rparr>)
      else Inr ([\<lparr>data = d, attributes = a\<rparr>],
                w\<lparr>seen := (seen w)(cache_topic c := insert v (seen w (cache_topic c)))\<rparr>))"
  by (simp add: without_duplicates_def)

lemma publish_data_dedup:
  "deduplicate_by p = Some A \<Longrightarrow> A \<noteq> [] \<Longrightarrow>
   publish_data p d a w =
     (case without_duplicates (cache p) A [\<lparr>data = d, attributes = a\<rparr>] w of
        Inl e \<Rightarrow> Inl e
      | Inr (kept, w1) \<Rightarrow>
          Inr (w1\<lparr>CapturingPublisher_messages := CapturingPublisher_messages w1 @ kept\<rparr>))"
  by (simp add: publish_data_def)

lemma publish_data_plain:
  "deduplicate_by p = None \<or> deduplicate_by p = Some [] \<Longrightarrow>
   publish_data p d a w =
     Inr (w\<lparr>CapturingPublisher_messages :=
              CapturingPublisher_messages w @ [\<lparr>data = d, attributes = a\<rparr>]\<rparr>)"
  by (auto simp: publish_data_def)

lemma without_duplicates_messages:
  "without_duplicates c A ms w = Inr (kept, w1) \<Longrightarrow>
   CapturingPublisher_messages w1 = CapturingPublisher_messages w"
  by (auto simp: without_duplicates_def split: sum.splits)

lemma publish_twice_same_value:
  assumes "deduplicate_by p = Some A" and "A \<noteq> []"
    and "a1 A = Some v" and "a2 A = Some v"
    and "v \<notin> seen w (cache_topic (cache p))"
  shows "delivered (calls p [Call_publish_data d1 a1, Call_publish_data d2 a2] w)
     = Some (CapturingPublisher_messages w @ [\<lparr>data = d1, attributes = a1\<rparr>])"
  using assms
  by (simp add: delivered_def publish_data_dedup without_duplicates_single)

text \<open>
  Claim C1 as stated fails for the empty attribute name: it is a configured
  dedup attribute, the cache would filter the message out, and
  \<^verbatim>\<open>publish_data\<close> hands it to the sink all the same, twice for two messages with
  the same value, because the empty string is false in \<^verbatim>\<open>if self.deduplicate_by:\<close>.
\<close>

theorem publish_data_blank_attribute_counterexample:
  "deduplicate_by blank_publisher = Some []
   \<and> returned (without_duplicates (cache blank_publisher) [] [msg_blank] seen_abc_world) = Some []
   \<and> delivered (publish_data blank_publisher (data msg_blank) (attributes msg_blank) seen_abc_world)
       = Some [msg_blank]
   \<and> delivered (calls blank_publisher
        [Call_publish_data (data msg_blank) (attributes msg_blank),
         Call_publish_data (data msg_blank) (attributes msg_blank)] empty_world)
       = Some [msg_blank, msg_blank]"
  by (simp add: blank_publisher_def msg_blank_def seen_abc_world_def empty_world_def
      example_cache_def returned_def delivered_def without_duplicates_def publish_data_def)

text \<open>
  Claim C1, amended. With a non-empty dedup attribute \<open>A\<close>, \<^verbatim>\<open>publish_data\<close> runs
  \<^verbatim>\<open>without_duplicates\<close> on the one-message batch: when the cache filters the
  message out, the call returns and the sink is unchanged; when the message
  survives, exactly that message is appended; an exception of the cache is the
  call's exception. With no dedup attribute, or the empty one, exactly that
  message is appended. Two messages with the same value of \<open>A\<close>, not yet marked
  in the store, published one after the other, add exactly the first to the sink.
\<close>

theorem publish_data_dedup_then_extend:
  "(deduplicate_by p = Some A \<and> A \<noteq> [] \<longrightarrow>
      (\<forall>w1. without_duplicates (cache p) A [\<lparr>data = d, attributes = a\<rparr>] w = Inr ([], w1) \<longrightarrow>
         publish_data p d a w = Inr w1
         \<and> CapturingPublisher_messages w1 = CapturingPublisher_messages w)
    \<and> (\<forall>w1. without_duplicates (cache p) A [\<lparr>data = d, attributes = a\<rparr>] w
               = Inr ([\<lparr>data = d, attributes = a\<rparr>], w1) \<longrightarrow>
         delivered (publish_data p d a w)
           = Some (CapturingPublisher_messages w @ [\<lparr>data = d, attributes = a\<rparr>]))
    \<and> (\<forall>e. without_duplicates (cache p) A [\<lparr>data = d, attributes = a\<rparr>] w = Inl e \<longrightarrow>
         publish_data p d a w = Inl e))
   \<and> (deduplicate_by p = None \<or> deduplicate_by p = Some [] \<longrightarrow>
        publish_data p d a w =
          Inr (w\<lparr>CapturingPublisher_messages :=
                   CapturingPublisher_messages w @ [\<lparr>data = d, attributes = a\<rparr>]\<rparr>))
   \<and> (deduplicate_by p = Some A \<and> A \<noteq> [] \<and> a A = Some v \<and> a' A = Some v
        \<and> v \<notin> seen w (cache_topic (cache p)) \<longrightarrow>
        delivered (calls p [Call_publish_data d a, Call_publish_data d' a'] w)
          = Some (CapturingPublisher_messages w @ [\<lparr>data = d, attributes = a\<rparr>]))"
proof (intro conjI impI allI)
  fix w1
  assume "deduplicate_by p = Some A \<and> A \<noteq> []"
    and "without_duplicates (cache p) A [\<lparr>data = d, attributes = a\<rparr>] w = Inr ([], w1)"
  then show "publish_data p d a w = Inr w1" by (simp add: publish_data_dedup)
next
  fix w1
  assume "without_duplicates (cache p) A [\<lparr>data = d, attributes = a\<rparr>] w = Inr ([], w1)"
  then show "CapturingPublisher_messages w1 = CapturingPublisher_messages w"
    by (rule without_duplicates_messages)
next
  fix w1
  assume "deduplicate_by p = Some A \<and> A \<noteq> []"
    and r: "without_duplicates (cache p) A [\<lparr>data = d, attributes = a\<rparr>] w
          = Inr ([\<lparr>data = d, attributes = a\<rparr>], w1)"
  then show "delivered (publish_data p d a w)
           = Some (CapturingPublisher_messages w @ [\<lparr>data = d, attributes = a\<rparr>])"
    by (simp add: publish_data_dedup delivered_def without_duplicates_messages [OF r])
next
  fix e
  assume "deduplicate_by p = Some A \<and> A \<noteq> []"
    and "without_duplicates (cache p) A [\<lparr>data = d, attributes = a\<rparr>] w = Inl e"
  then show "publish_data p d a w = Inl e" by (simp add: publish_data_dedup)
next
  assume "deduplicate_by p = None \<or> deduplicate_by p = Some []"
  then show "publish_data p d a w =
          Inr (w\<lparr>CapturingPublisher_messages :=
                   CapturingPublisher_messages w @ [\<lparr>data = d, attributes = a\<rparr>]\<rparr>)"
    by (rule publish_data_plain)
next
  assume "deduplicate_by p = Some A \<and> A \<noteq> [] \<and> a A = Some v \<and> a' A = Some v
        \<and> v \<notin> seen w (cache_topic (cache p))"
  then show "delivered (calls p [Call_publish_data d a, Call_publish_data d' a'] w)
          = Some (CapturingPublisher_messages w @ [\<lparr>data = d, attributes = a\<rparr>])"
    by (elim conjE) (rule publish_twice_same_value)
qed


text \<open>An instance: two messages with \<open>id = abc\<close> through a publisher that
  deduplicates by \<open>id\<close>, from an empty store.\<close>

theorem publish_data_dedup_then_extend_witness:
  "deduplicate_by dedup_publisher = Some ''id'' \<and> ''id'' \<noteq> []
   \<and> attributes msg_abc ''id'' = Some ''abc'' \<and> attributes msg_abc' ''id'' = Some ''abc''
   \<and> ''abc'' \<notin> seen empty_world (cache_topic (cache dedup_publisher))
   \<and> delivered (calls dedup_publisher
        [Call_publish_data ''first'' (attributes msg_abc),
         Call_publish_data ''second'' (attributes msg_abc')] empty_world)
       = Some [\<lparr>data = ''first'', attributes = attributes msg_abc\<rparr>]"
  using publish_data_dedup_then_extend [of dedup_publisher "''id''" "''first''"
      "attributes msg_abc" empty_world "''abc''" "attributes msg_abc'" "''second''"]
  by (simp add: dedup_publisher_def msg_abc_def msg_abc'_def empty_world_def example_cache_def)


lemma calls_ignore_scope: "calls p cs w = calls p (filter is_publish cs) w"
proof (induction cs arbitrary: w)
  case Nil
  show ?case by simp
next
  case (Cons c cs)
  show ?case
  proof (cases c)
    case Call_aenter
    with Cons.IH show ?thesis by (simp add: CapturingPublisher_aenter_def)
  next
    case Call_aexit
    with Cons.IH show ?thesis by (simp add: CapturingPublisher_aexit_def)
  next
    case (Call_publish_data d a)
    with Cons.IH show ?thesis by (simp split: sum.splits)
  qed
qed

text \<open>
  Claim C3 as stated fails: \<^verbatim>\<open>CapturingPublisher\<close> keeps no record of its scope.
  A publisher that was never entered, and one that was entered and exited,
  both accept \<^verbatim>\<open>publish_data\<close> and append the message; nothing is raised.
\<close>

theorem publish_outside_scope_counterexample:
  "delivered (calls other_publisher [Call_publish_data ''first'' [''id'' \<mapsto> ''abc'']] empty_world)
     = Some [msg_abc]
   \<and> delivered (calls other_publisher
        [Call_aenter, Call_aexit, Call_publish_data ''first'' [''id'' \<mapsto> ''abc'']] empty_world)
     = Some [msg_abc]"
  by (simp add: other_publisher_def empty_world_def msg_abc_def delivered_def publish_data_def
      CapturingPublisher_aenter_def CapturingPublisher_aexit_def)

text \<open>
  Claim C3, amended. \<^verbatim>\<open>__aenter__\<close> and \<^verbatim>\<open>__aexit__\<close> of \<^verbatim>\<open>CapturingPublisher\<close>
  change nothing, so a sequence of calls does what its \<^verbatim>\<open>publish_data\<close> calls
  alone do: \<^verbatim>\<open>publish_data\<close> before entry or after exit behaves exactly as inside
  the scope, and no exception is raised on account of the scope.
\<close>

theorem publish_data_ignores_scope:
  "calls p cs w = calls p (filter is_publish cs) w
   \<and> calls p [Call_publish_data d a] w = calls p [Call_aenter, Call_publish_data d a, Call_aexit] w
   \<and> calls p [Call_aenter, Call_aexit, Call_publish_data d a] w
       = calls p [Call_aenter, Call_publish_data d a, Call_aexit] w
   \<and> calls p [Call_publish_data d a] w = publish_data p d a w"
proof -
  have inside: "calls p [Call_aenter, Call_publish_data d a, Call_aexit] w
      = calls p [Call_publish_data d a] w"
    by (subst calls_ignore_scope) simp
  have after: "calls p [Call_aenter, Call_aexit, Call_publish_data d a] w
      = calls p [Call_publish_data d a] w"
    by (subst calls_ignore_scope) simp
  have alone: "calls p [Call_publish_data d a] w = publish_data p d a w"
    by (simp split: sum.splits)
  from inside after alone calls_ignore_scope [of p cs w] show ?thesis by simp
qed

text \<open>
  Claim C7. Every instance reads and extends the one list of the class: after
  \<^verbatim>\<open>p.publish_data\<close> returns, \<^verbatim>\<open>q.messages\<close> is \<^verbatim>\<open>p.messages\<close> for any two
  publishers \<open>p\<close> and \<open>q\<close>, whatever their topics, and a message that \<open>p\<close>
  captured (with no dedup attribute, or having passed the cache) is the new
  last element of \<^verbatim>\<open>q.messages\<close>.
\<close>

theorem messages_shared_by_all_instances:
  assumes "publish_data p d a w = Inr w'"
  shows "self_messages q w' = self_messages p w'
     \<and> (deduplicate_by p = None \<or> deduplicate_by p = Some [] \<longrightarrow>
          self_messages q w' = self_messages q w @ [\<lparr>data = d, attributes = a\<rparr>])
     \<and> (\<forall>A w1. deduplicate_by p = Some A \<and> A \<noteq> []
          \<and> without_duplicates (cache p) A [\<lparr>data = d, attributes = a\<rparr>] w
              = Inr ([\<lparr>data = d, attributes = a\<rparr>], w1) \<longrightarrow>
          self_messages q w' = self_messages q w @ [\<lparr>data = d, attributes = a\<rparr>])"
proof (intro conjI impI allI)
  show "self_messages q w' = self_messages p w'" by (simp add: self_messages_def)
next
  assume "deduplicate_by p = None \<or> deduplicate_by p = Some []"
  from publish_data_plain [OF this, of d a w] assms
  show "self_messages q w' = self_messages q w @ [\<lparr>data = d, attributes = a\<rparr>]"
    by (auto simp: self_messages_def)
next
  fix A w1
  assume h: "deduplicate_by p = Some A \<and> A \<noteq> []
          \<and> without_duplicates (cache p) A [\<lparr>data = d, attributes = a\<rparr>] w
              = Inr ([\<lparr>data = d, attributes = a\<rparr>], w1)"
  then have r: "without_duplicates (cache p) A [\<lparr>data = d, attributes = a\<rparr>] w
              = Inr ([\<lparr>data = d, attributes = a\<rparr>], w1)" by simp
  from h assms have "w' = w1\<lparr>CapturingPublisher_messages :=
      CapturingPublisher_messages w1 @ [\<lparr>data = d, attributes = a\<rparr>]\<rparr>"
    by (simp add: publish_data_dedup)
  with without_duplicates_messages [OF r]
  show "self_messages q w' = self_messages q w @ [\<lparr>data = d, attributes = a\<rparr>]"
    by (simp add: self_messages_def)
qed

text \<open>An instance: a message published on the topic \<open>events\<close> is read through a
  publisher of the topic \<open>audit\<close>.\<close>

theorem messages_shared_by_all_instances_witness:
  "topic dedup_publisher \<noteq> topic other_publisher
   \<and> (\<exists>w'. publish_data dedup_publisher ''first'' [''id'' \<mapsto> ''abc''] empty_world = Inr w'
        \<and> self_messages other_publisher w' = [msg_abc]
        \<and> self_messages other_publisher w' = self_messages dedup_publisher w')"
proof -
  let ?w = "empty_world\<lparr>seen := (seen empty_world)(Some ''events'' := {''abc''}),
                        CapturingPublisher_messages := [msg_abc]\<rparr>"
  have run: "publish_data dedup_publisher ''first'' [''id'' \<mapsto> ''abc''] empty_world = Inr ?w"
    by (simp add: publish_data_def without_duplicates_def dedup_publisher_def example_cache_def
        empty_world_def msg_abc_def)
  have t: "topic dedup_publisher \<noteq> topic other_publisher"
    by (simp add: dedup_publisher_def other_publisher_def)
  from messages_shared_by_all_instances [OF run, of other_publisher]
  have "self_messages other_publisher ?w = self_messages dedup_publisher ?w" by blast
  moreover have "self_messages other_publisher ?w = [msg_abc]"
    by (simp add: self_messages_def)
  ultimately show ?thesis using run t by blast
qed

section \<open>Properties of the resolver\<close>

lemma create_cache_resolved:
  "modules E (PREFECT_MESSAGING_CACHE E) = Some mc \<Longrightarrow> mod_Cache mc = Some C \<Longrightarrow>
   create_cache E t = Inr (C t)"
  by (simp add: create_cache_def import_module_def isinstance_CacheModule_def)

text \<open>
  Claim C8. With no cache argument, \<^verbatim>\<open>CapturingPublisher\<close> and
  \<^verbatim>\<open>create_publisher\<close> build the cache by \<^verbatim>\<open>create_cache()\<close>, that is, for the
  topic \<open>default\<close> whatever the publisher's own topic; so two publishers of
  different topics hold the same cache, and a fingerprint that one of them let
  through is a duplicate for the other.
\<close>

theorem default_topic_cache_shared:
  assumes "modules E (PREFECT_MESSAGING_CACHE E) = Some mc" and "mod_Cache mc = Some C"
  shows "create_cache E ''default'' = Inr (C ''default'')
     \<and> CapturingPublisher_init E t None dedup
          = Inr \<lparr>topic = t, cache = C ''default'', deduplicate_by = dedup\<rparr>
     \<and> (\<forall>mb P. modules E (PREFECT_MESSAGING_BROKER E) = Some mb \<and> isinstance_BrokerModule mb
           \<and> mod_Publisher mb = Some P \<longrightarrow>
           create_publisher E t None dedup = Inr (P t (C ''default'') dedup))
     \<and> (\<forall>p1 p2. CapturingPublisher_init E t1 None (Some A) = Inr p1
           \<and> CapturingPublisher_init E t2 None (Some A) = Inr p2 \<longrightarrow>
           cache p1 = cache p2
           \<and> (A \<noteq> [] \<and> a1 A = Some v \<and> a2 A = Some v \<and> v \<notin> seen w (cache_topic (cache p1)) \<longrightarrow>
                delivered (publish_then_publish p1 d1 a1 p2 d2 a2 w)
                  = Some (CapturingPublisher_messages w @ [\<lparr>data = d1, attributes = a1\<rparr>])))"
proof -
  note cc = create_cache_resolved [OF assms]
  have init: "CapturingPublisher_init E t' None dedup'
          = Inr \<lparr>topic = t', cache = C ''default'', deduplicate_by = dedup'\<rparr>" for t' dedup'
    by (simp add: CapturingPublisher_init_def cache_or_create_cache_def cc)
  have pub: "create_publisher E t None dedup = Inr (P t (C ''default'') dedup)"
    if "modules E (PREFECT_MESSAGING_BROKER E) = Some mb" "isinstance_BrokerModule mb"
      "mod_Publisher mb = Some P" for mb P
    using that by (simp add: create_publisher_def cache_or_create_cache_def cc import_module_def)
  have share: "delivered (publish_then_publish p1 d1 a1 p2 d2 a2 w)
                  = Some (CapturingPublisher_messages w @ [\<lparr>data = d1, attributes = a1\<rparr>])"
    if "p1 = \<lparr>topic = t1, cache = C ''default'', deduplicate_by = Some A\<rparr>"
      "p2 = \<lparr>topic = t2, cache = C ''default'', deduplicate_by = Some A\<rparr>"
      "A \<noteq> []" "a1 A = Some v" "a2 A = Some v" "v \<notin> seen w (cache_topic (cache p1))" for p1 p2
    using that
    by (simp add: publish_then_publish_def delivered_def publish_data_dedup
        without_duplicates_single)
  show ?thesis
  proof (intro conjI allI impI)
    show "create_cache E ''default'' = Inr (C ''default'')" by (rule cc)
    show "CapturingPublisher_init E t None dedup
          = Inr \<lparr>topic = t, cache = C ''default'', deduplicate_by = dedup\<rparr>" by (rule init)
  next
    fix mb P
    assume "modules E (PREFECT_MESSAGING_BROKER E) = Some mb \<and> isinstance_BrokerModule mb
           \<and> mod_Publisher mb = Some P"
    then show "create_publisher E t None dedup = Inr (P t (C ''default'') dedup)"
      by (elim conjE) (rule pub)
  next
    fix p1 p2
    assume "CapturingPublisher_init E t1 None (Some A) = Inr p1
           \<and> CapturingPublisher_init E t2 None (Some A) = Inr p2"
    then show "cache p1 = cache p2" by (auto simp: init)
  next
    fix p1 p2
    assume "CapturingPublisher_init E t1 None (Some A) = Inr p1
           \<and> CapturingPublisher_init E t2 None (Some A) = Inr p2"
      and "A \<noteq> [] \<and> a1 A = Some v \<and> a2 A = Some v \<and> v \<notin> seen w (cache_topic (cache p1))"
    then show "delivered (publish_then_publish p1 d1 a1 p2 d2 a2 w)
                  = Some (CapturingPublisher_messages w @ [\<lparr>data = d1, attributes = a1\<rparr>])"
      by (intro share) (auto simp: init)
  qed
qed


text \<open>An instance: publishers for the topics \<open>events\<close> and \<open>audit\<close>, both with the
  cache of the topic \<open>default\<close>; the second message is a duplicate.\<close>

theorem default_topic_cache_shared_witness:
  "CapturingPublisher_init memory_env ''events'' None (Some ''id'')
     = Inr \<lparr>topic = ''events'', cache = \<lparr>cache_topic = Some ''default''\<rparr>, deduplicate_by = Some ''id''\<rparr>
   \<and> CapturingPublisher_init memory_env ''audit'' None (Some ''id'')
     = Inr \<lparr>topic = ''audit'', cache = \<lparr>cache_topic = Some ''default''\<rparr>, deduplicate_by = Some ''id''\<rparr>
   \<and> create_publisher memory_env ''events'' None (Some ''id'')
     = Inr (''events'', \<lparr>cache_topic = Some ''default''\<rparr>, Some ''id'')
   \<and> delivered (publish_then_publish
        \<lparr>topic = ''events'', cache = \<lparr>cache_topic = Some ''default''\<rparr>, deduplicate_by = Some ''id''\<rparr>
        ''first'' (attributes msg_abc)
        \<lparr>topic = ''audit'', cache = \<lparr>cache_topic = Some ''default''\<rparr>, deduplicate_by = Some ''id''\<rparr>
        ''second'' (attributes msg_abc') empty_world)
     = Some [\<lparr>data = ''first'', attributes = attributes msg_abc\<rparr>]"
proof -
  let ?C = "\<lambda>t. \<lparr>cache_topic = Some t\<rparr>"
  let ?p1 = "\<lparr>topic = ''events'', cache = \<lparr>cache_topic = Some ''default''\<rparr>, deduplicate_by = Some ''id''\<rparr>"
  let ?p2 = "\<lparr>topic = ''audit'', cache = \<lparr>cache_topic = Some ''default''\<rparr>, deduplicate_by = Some ''id''\<rparr>"
  have m: "modules memory_env (PREFECT_MESSAGING_CACHE memory_env) = Some memory_module"
    by (simp add: memory_env_def)
  have C: "mod_Cache memory_module = Some ?C"
    by (simp add: memory_module_def)
  note T = default_topic_cache_shared [OF m C, where ?t1.0 = "''events''" and ?t2.0 = "''audit''"
      and A = "''id''" and ?a1.0 = "attributes msg_abc" and ?a2.0 = "attributes msg_abc'"
      and v = "''abc''" and w = empty_world and ?d1.0 = "''first''" and ?d2.0 = "''second''"
      and dedup = "Some ''id''"]
  have i1: "CapturingPublisher_init memory_env ''events'' None (Some ''id'') = Inr ?p1"
    using T [where t = "''events''"] by simp
  have i2: "CapturingPublisher_init memory_env ''audit'' None (Some ''id'') = Inr ?p2"
    using T [where t = "''audit''"] by simp
  have b: "modules memory_env (PREFECT_MESSAGING_BROKER memory_env) = Some memory_module
      \<and> isinstance_BrokerModule memory_module
      \<and> mod_Publisher memory_module = Some (\<lambda>t c dedup. (t, c, dedup))"
    by (simp add: memory_env_def memory_module_def isinstance_BrokerModule_def)
  have cp: "create_publisher memory_env ''events'' None (Some ''id'')
     = Inr (''events'', \<lparr>cache_topic = Some ''default''\<rparr>, Some ''id'')"
    using T [where t = "''events''"] b by blast
  have pre: "''id'' \<noteq> [] \<and> attributes msg_abc ''id'' = Some ''abc''
      \<and> attributes msg_abc' ''id'' = Some ''abc''
      \<and> ''abc'' \<notin> seen empty_world (cache_topic (cache ?p1))"
    by (simp add: msg_abc_def msg_abc'_def empty_world_def)
  have "delivered (publish_then_publish ?p1 ''first'' (attributes msg_abc)
        ?p2 ''second'' (attributes msg_abc') empty_world)
     = Some (CapturingPublisher_messages empty_world @ [\<lparr>data = ''first'', attributes = attributes msg_abc\<rparr>])"
    using T [where t = "''events''"] i1 i2 pre by blast
  then have d: "delivered (publish_then_publish ?p1 ''first'' (attributes msg_abc)
        ?p2 ''second'' (attributes msg_abc') empty_world)
     = Some [\<lparr>data = ''first'', attributes = attributes msg_abc\<rparr>]"
    by (simp add: empty_world_def)
  from i1 i2 cp d show ?thesis by simp
qed

text \<open>
  Claim C9. Each resolver entry point checks the shape of the module it
  resolved and raises \<^verbatim>\<open>AssertionError\<close> when an attribute of the required set
  is missing (and the import raises when the name resolves to no module):
  \<^verbatim>\<open>Cache\<close> for the cache module; \<^verbatim>\<open>Publisher\<close>, \<^verbatim>\<open>Consumer\<close>,
  \<^verbatim>\<open>ephemeral_subscription\<close> and \<^verbatim>\<open>break_topic\<close> for the broker module. Nothing is
  constructed and no scope is entered in that case; conversely, an entry point
  that returns has resolved a module with the full set.
\<close>

theorem resolver_checks_capabilities:
  "(\<forall>m. modules E (PREFECT_MESSAGING_CACHE E) = Some m \<and> mod_Cache m = None \<longrightarrow>
       create_cache E t = Inl AssertionError
     \<and> create_publisher E t None dedup = Inl AssertionError)
   \<and> (\<forall>m. modules E (PREFECT_MESSAGING_BROKER E) = Some m
         \<and> (mod_Publisher m = None \<or> mod_Consumer m = None
            \<or> mod_ephemeral_subscription m = None \<or> mod_break_topic m = None) \<longrightarrow>
       create_publisher E t (Some c) dedup = Inl AssertionError
     \<and> isl (create_publisher E t None dedup)
     \<and> create_consumer E t kw = Inl AssertionError
     \<and> ephemeral_subscription E t s = (Inl AssertionError, s)
     \<and> async_with (ephemeral_subscription E t) body s = (Inl AssertionError, s))
   \<and> (modules E (PREFECT_MESSAGING_CACHE E) = None \<longrightarrow>
        create_cache E t = Inl (ModuleNotFoundError (PREFECT_MESSAGING_CACHE E)))
   \<and> (modules E (PREFECT_MESSAGING_BROKER E) = None \<longrightarrow>
        create_publisher E t (Some c) dedup = Inl (ModuleNotFoundError (PREFECT_MESSAGING_BROKER E))
      \<and> create_consumer E t kw = Inl (ModuleNotFoundError (PREFECT_MESSAGING_BROKER E))
      \<and> ephemeral_subscription E t s = (Inl (ModuleNotFoundError (PREFECT_MESSAGING_BROKER E)), s))
   \<and> (\<forall>x. create_cache E t = Inr x \<longrightarrow>
        (\<exists>m. modules E (PREFECT_MESSAGING_CACHE E) = Some m \<and> isinstance_CacheModule m))
   \<and> (\<forall>x. create_publisher E t c' dedup = Inr x \<longrightarrow>
        (\<exists>m. modules E (PREFECT_MESSAGING_BROKER E) = Some m \<and> isinstance_BrokerModule m))
   \<and> (\<forall>x. create_consumer E t kw = Inr x \<longrightarrow>
        (\<exists>m. modules E (PREFECT_MESSAGING_BROKER E) = Some m \<and> isinstance_BrokerModule m))
   \<and> (\<forall>x s'. ephemeral_subscription E t s = (Inr x, s') \<longrightarrow>
        (\<exists>m. modules E (PREFECT_MESSAGING_BROKER E) = Some m \<and> isinstance_BrokerModule m))"
proof (intro conjI allI impI)
  fix m
  assume h: "modules E (PREFECT_MESSAGING_CACHE E) = Some m \<and> mod_Cache m = None"
  then show cc: "create_cache E t = Inl AssertionError"
    by (simp add: create_cache_def import_module_def isinstance_CacheModule_def)
  from h show "create_publisher E t None dedup = Inl AssertionError"
    by (simp add: create_publisher_def cache_or_create_cache_def create_cache_def
        import_module_def isinstance_CacheModule_def)
next
  fix m
  assume "modules E (PREFECT_MESSAGING_BROKER E) = Some m
         \<and> (mod_Publisher m = None \<or> mod_Consumer m = None
            \<or> mod_ephemeral_subscription m = None \<or> mod_break_topic m = None)"
  then have m: "modules E (PREFECT_MESSAGING_BROKER E) = Some m" and n: "\<not> isinstance_BrokerModule m"
    by (auto simp: isinstance_BrokerModule_def)
  from m n show "create_publisher E t (Some c) dedup = Inl AssertionError"
    by (simp add: create_publisher_def cache_or_create_cache_def import_module_def)
  from m n show "isl (create_publisher E t None dedup)"
    by (simp add: create_publisher_def import_module_def split: sum.splits)
  from m n show "create_consumer E t kw = Inl AssertionError"
    by (simp add: create_consumer_def import_module_def)
  from m n show e: "ephemeral_subscription E t s = (Inl AssertionError, s)"
    by (simp add: ephemeral_subscription_def import_module_def)
  show "async_with (ephemeral_subscription E t) body s = (Inl AssertionError, s)"
    by (simp add: async_with_def e)
next
  assume "modules E (PREFECT_MESSAGING_CACHE E) = None"
  then show "create_cache E t = Inl (ModuleNotFoundError (PREFECT_MESSAGING_CACHE E))"
    by (simp add: create_cache_def import_module_def)
next
  assume n: "modules E (PREFECT_MESSAGING_BROKER E) = None"
  then show "create_publisher E t (Some c) dedup = Inl (ModuleNotFoundError (PREFECT_MESSAGING_BROKER E))"
    by (simp add: create_publisher_def cache_or_create_cache_def import_module_def)
  from n show "create_consumer E t kw = Inl (ModuleNotFoundError (PREFECT_MESSAGING_BROKER E))"
    by (simp add: create_consumer_def import_module_def)
  from n show "ephemeral_subscription E t s = (Inl (ModuleNotFoundError (PREFECT_MESSAGING_BROKER E)), s)"
    by (simp add: ephemeral_subscription_def import_module_def)
next
  fix x
  assume "create_cache E t = Inr x"
  then show "\<exists>m. modules E (PREFECT_MESSAGING_CACHE E) = Some m \<and> isinstance_CacheModule m"
    by (auto simp: create_cache_def import_module_def split: option.splits if_splits)
next
  fix x
  assume "create_publisher E t c' dedup = Inr x"
  then show "\<exists>m. modules E (PREFECT_MESSAGING_BROKER E) = Some m \<and> isinstance_BrokerModule m"
    by (auto simp: create_publisher_def import_module_def split: sum.splits option.splits if_splits)
next
  fix x
  assume "create_consumer E t kw = Inr x"
  then show "\<exists>m. modules E (PREFECT_MESSAGING_BROKER E) = Some m \<and> isinstance_BrokerModule m"
    by (auto simp: create_consumer_def import_module_def split: option.splits if_splits)
next
  fix x s'
  assume "ephemeral_subscription E t s = (Inr x, s')"
  then show "\<exists>m. modules E (PREFECT_MESSAGING_BROKER E) = Some m \<and> isinstance_BrokerModule m"
    by (auto simp: ephemeral_subscription_def import_module_def
        split: option.splits if_splits prod.splits sum.splits)
qed

text \<open>An instance: the configured module has neither \<^verbatim>\<open>Cache\<close> nor
  \<^verbatim>\<open>break_topic\<close>, and every entry point raises; with the full module they return.\<close>

theorem resolver_checks_capabilities_witness:
  "modules partial_env (PREFECT_MESSAGING_BROKER partial_env) = Some partial_module
   \<and> mod_Cache partial_module = None \<and> mod_break_topic partial_module = None
   \<and> create_cache partial_env ''events'' = Inl AssertionError
   \<and> create_publisher partial_env ''events'' (Some example_cache) None = Inl AssertionError
   \<and> create_consumer partial_env ''events'' Map.empty = Inl AssertionError
   \<and> fst (ephemeral_subscription partial_env ''events'' empty_broker) = Inl AssertionError
   \<and> create_cache memory_env ''events'' = Inr \<lparr>cache_topic = Some ''events''\<rparr>
   \<and> create_consumer memory_env ''events'' Map.empty = Inr (Positional ''events'')"
proof -
  have mb: "modules partial_env (PREFECT_MESSAGING_BROKER partial_env) = Some partial_module"
    and mc: "modules partial_env (PREFECT_MESSAGING_CACHE partial_env) = Some partial_module"
    by (simp_all add: partial_env_def)
  have c0: "mod_Cache partial_module = None" and b0: "mod_break_topic partial_module = None"
    by (simp_all add: partial_module_def)
  note T = resolver_checks_capabilities [where E = partial_env and t = "''events''"
      and c = example_cache and dedup = None and kw = Map.empty and s = empty_broker]
  from T mc c0 have 1: "create_cache partial_env ''events'' = Inl AssertionError"
    by blast
  from T mb b0 have 2: "create_publisher partial_env ''events'' (Some example_cache) None = Inl AssertionError
      \<and> create_consumer partial_env ''events'' Map.empty = Inl AssertionError
      \<and> ephemeral_subscription partial_env ''events'' empty_broker = (Inl AssertionError, empty_broker)"
    by blast
  have 3: "create_cache memory_env ''events'' = Inr \<lparr>cache_topic = Some ''events''\<rparr>
      \<and> create_consumer memory_env ''events'' Map.empty = Inr (Positional ''events'')"
    by (simp add: memory_env_def memory_module_def create_cache_def create_consumer_def
        import_module_def isinstance_CacheModule_def isinstance_BrokerModule_def)
  from mb c0 b0 1 2 3 show ?thesis by simp
qed

section \<open>Properties of the ephemeral subscription\<close>

text \<open>
  Claim C10. For every topic, entering \<^verbatim>\<open>ephemeral_subscription(topic)\<close> creates
  a binding on the topic and yields the parameters for a consumer; when the body
  ends, by returning or by raising, the binding is deleted from whatever state
  the body left, and the body's result or exception is the result of the scope.
\<close>

theorem ephemeral_subscription_removes_binding:
  assumes "modules E (PREFECT_MESSAGING_BROKER E) = Some m"
    and "isinstance_BrokerModule m"
    and "mod_ephemeral_subscription m = Some backend_ephemeral_subscription"
  shows "(\<exists>ex. ephemeral_subscription E t s =
            (Inr ([''topic'' \<mapsto> PyStr t, ''subscription'' \<mapsto> PyInt (int (next_binding s))], ex),
             s\<lparr>bindings := insert (t, next_binding s) (bindings s),
                next_binding := Suc (next_binding s)\<rparr>))
     \<and> async_with (ephemeral_subscription E t) body s =
         (case body [''topic'' \<mapsto> PyStr t, ''subscription'' \<mapsto> PyInt (int (next_binding s))]
                 (s\<lparr>bindings := insert (t, next_binding s) (bindings s),
                    next_binding := Suc (next_binding s)\<rparr>) of
            (r, s2) \<Rightarrow>
              (case r of Inl e \<Rightarrow> Inl e | Inr x \<Rightarrow> Inr (Some x),
               s2\<lparr>bindings := bindings s2 - {(t, next_binding s)}\<rparr>))
     \<and> (t, next_binding s) \<notin> bindings (snd (async_with (ephemeral_subscription E t) body s))"
proof -
  let ?kw = "[''topic'' \<mapsto> PyStr t, ''subscription'' \<mapsto> PyInt (int (next_binding s))]"
  let ?s1 = "s\<lparr>bindings := insert (t, next_binding s) (bindings s),
                next_binding := Suc (next_binding s)\<rparr>"
  let ?ex = "\<lambda>exc s2. case (Inr False, s2\<lparr>bindings := bindings s2 - {(t, next_binding s)}\<rparr>) of
                          (Inl e', s3) \<Rightarrow> (Inl e', s3)
                        | (Inr b, s3) \<Rightarrow> (Inr (exc \<noteq> None \<and> b), s3)"
  have enter: "ephemeral_subscription E t s = (Inr (?kw, ?ex), ?s1)"
    using assms
    by (simp add: ephemeral_subscription_def import_module_def backend_ephemeral_subscription_def
        Let_def)
  have ex: "?ex exc s2 = (Inr False, s2\<lparr>bindings := bindings s2 - {(t, next_binding s)}\<rparr>)"
    for exc s2 by simp
  obtain r s2 where body: "body ?kw ?s1 = (r, s2)" by (cases "body ?kw ?s1")
  have run: "async_with (ephemeral_subscription E t) body s =
      (case r of Inl e \<Rightarrow> Inl e | Inr x \<Rightarrow> Inr (Some x),
       s2\<lparr>bindings := bindings s2 - {(t, next_binding s)}\<rparr>)"
    by (cases r) (simp_all add: async_with_def enter body)
  from enter have "\<exists>ex. ephemeral_subscription E t s = (Inr (?kw, ex), ?s1)" by blast
  moreover from run body have "async_with (ephemeral_subscription E t) body s =
         (case body ?kw ?s1 of
            (r, s2) \<Rightarrow>
              (case r of Inl e \<Rightarrow> Inl e | Inr x \<Rightarrow> Inr (Some x),
               s2\<lparr>bindings := bindings s2 - {(t, next_binding s)}\<rparr>))" by simp
  moreover from run have "(t, next_binding s) \<notin> bindings (snd (async_with (ephemeral_subscription E t) body s))"
    by simp
  ultimately show ?thesis by blast
qed

text \<open>An instance: the body raises, the exception leaves the scope, and no
  binding is left.\<close>

theorem ephemeral_subscription_removes_binding_witness:
  "modules memory_env (PREFECT_MESSAGING_BROKER memory_env) = Some memory_module
   \<and> isinstance_BrokerModule memory_module
   \<and> mod_ephemeral_subscription memory_module = Some backend_ephemeral_subscription
   \<and> async_with (ephemeral_subscription memory_env ''events'') raising_body empty_broker
       = (Inl (OtherError ''boom''), \<lparr>bindings = {}, next_binding = 1\<rparr>)"
proof -
  have m: "modules memory_env (PREFECT_MESSAGING_BROKER memory_env) = Some memory_module"
    by (simp add: memory_env_def)
  have b: "isinstance_BrokerModule memory_module"
    by (simp add: memory_module_def isinstance_BrokerModule_def)
  have e: "mod_ephemeral_subscription memory_module = Some backend_ephemeral_subscription"
    by (simp add: memory_module_def)
  from ephemeral_subscription_removes_binding [OF m b e, of "''events''" empty_broker raising_body]
  have "async_with (ephemeral_subscription memory_env ''events'') raising_body empty_broker
       = (Inl (OtherError ''boom''), \<lparr>bindings = {}, next_binding = 1\<rparr>)"
    by (simp add: raising_body_def empty_broker_def)
  with m b e show ?thesis by simp
qed

section \<open>Properties of the consumer\<close>

lemma run_loop_stops:
  "stops_after handler src i h n ack \<Longrightarrow>
   \<exists>h'. run_loop handler src i h c =
     Some (Inr (), h',
           c\<lparr>state := STOPPED,
             acked := acked c @ map src [i..<i + n] @ (if ack then [src (i + n)] else []),
             unacked := unacked c @ (if ack then [] else [src (i + n)])\<rparr>)"
proof (induction n arbitrary: i h c)
  case 0
  then obtain h' where "handler (src i) h = (Inl (StopConsumer ack), h')"
    by (cases "handler (src i) h") auto
  then show ?case
    by (subst run_loop.simps) simp
next
  case (Suc n)
  then obtain h' where step: "handler (src i) h = (Inr (), h')"
    and rest: "stops_after handler src (Suc i) h' n ack"
    by (cases "handler (src i) h") auto
  let ?c = "c\<lparr>acked := acked c @ [src i]\<rparr>"
  from Suc.IH [OF rest, of ?c] obtain h'' where
    "run_loop handler src (Suc i) h' ?c =
       Some (Inr (), h'',
           ?c\<lparr>state := STOPPED,
             acked := acked ?c @ map src [Suc i..<Suc i + n] @ (if ack then [src (Suc i + n)] else []),
             unacked := unacked ?c @ (if ack then [] else [src (Suc i + n)])\<rparr>)"
    by blast
  moreover have "[i..<i + Suc n] = i # [Suc i..<Suc i + n]"
    by (simp add: upt_rec)
  ultimately show ?case using step
    by (subst run_loop.simps) simp
qed


text \<open>
  Claim C6. When the handler raises \<^verbatim>\<open>StopConsumer(ack)\<close> (at some delivery,
  having returned normally at the earlier ones), \<^verbatim>\<open>run\<close> returns, and returns
  normally: no exception reaches the caller. The consumer is stopped, the
  earlier messages are acknowledged, and the message in flight is acknowledged
  when \<open>ack\<close> is true and left unacknowledged when it is false.
\<close>

theorem run_returns_on_stop:
  assumes "stops_after handler src 0 h n ack"
  shows "\<exists>h'. run handler src h c =
     Some (Inr (), h',
           c\<lparr>state := STOPPED,
             acked := acked c @ map src [0..<n] @ (if ack then [src n] else []),
             unacked := unacked c @ (if ack then [] else [src n])\<rparr>)"
proof -
  from run_loop_stops [OF assms, of "c\<lparr>state := RUNNING\<rparr>"]
  show ?thesis by (cases ack) (simp_all add: run_def)
qed

text \<open>An instance: messages 0, 1, 2, ...; the handler stops at message 2, once
  with \<open>ack\<close> true and once with \<open>ack\<close> false.\<close>

theorem run_returns_on_stop_witness:
  "stops_after (stop_at_two True) id 0 0 (Suc (Suc 0)) True
   \<and> stops_after (stop_at_two False) id 0 0 (Suc (Suc 0)) False
   \<and> (\<exists>h'. run (stop_at_two True) id 0 fresh_consumer =
         Some (Inr (), h', \<lparr>state = STOPPED, acked = [0, 1, 2], unacked = []\<rparr>))
   \<and> (\<exists>h'. run (stop_at_two False) id 0 fresh_consumer =
         Some (Inr (), h', \<lparr>state = STOPPED, acked = [0, 1], unacked = [2]\<rparr>))"
proof -
  have t: "stops_after (stop_at_two True) id 0 0 (Suc (Suc 0)) True"
    and f: "stops_after (stop_at_two False) id 0 0 (Suc (Suc 0)) False"
    by (simp_all add: stop_at_two_def)
  have l: "[0..<Suc (Suc 0)] = [0, Suc 0]" by (simp add: upt_rec)
  from run_returns_on_stop [OF t, of fresh_consumer]
  have 1: "\<exists>h'. run (stop_at_two True) id 0 fresh_consumer =
         Some (Inr (), h', \<lparr>state = STOPPED, acked = [0, 1, 2], unacked = []\<rparr>)"
    by (simp add: fresh_consumer_def l numeral_2_eq_2)
  from run_returns_on_stop [OF f, of fresh_consumer]
  have 2: "\<exists>h'. run (stop_at_two False) id 0 fresh_consumer =
         Some (Inr (), h', \<lparr>state = STOPPED, acked = [0, 1], unacked = [2]\<rparr>)"
    by (simp add: fresh_consumer_def l numeral_2_eq_2)
  from t f 1 2 show ?thesis by simp
qed

end
